theory Spec2Isabelle
  imports Main "HOL-Library.Word"
begin

section \<open>The recording studio of frontend/script.js\<close>

text \<open>
  The script keeps its whole state in module-level variables and drives the browser through
  four interfaces: \<^verbatim>\<open>getUserMedia\<close> (capture streams and their tracks),
  \<^verbatim>\<open>MediaRecorder\<close>, \<^verbatim>\<open>URL.createObjectURL\<close> /
  \<^verbatim>\<open>revokeObjectURL\<close>, and \<^verbatim>\<open>setInterval\<close> /
  \<^verbatim>\<open>clearInterval\<close>. The embedding is one state record holding the
  script's variables, the browser objects the script created (addressed by handle: the index
  in the list that stores them) and the elements of the page the script writes to. Each
  function of the script is a state transformer; each callback the script registers is a
  state transformer that the event system below invokes.

  The question carousel (\<^verbatim>\<open>nextQuestion\<close>), tab navigation
  (\<^verbatim>\<open>showPage\<close>) and icon rendering (\<^verbatim>\<open>lucide.createIcons\<close>)
  touch none of the variables of the recorder and are left out.
\<close>

subsection \<open>Browser objects\<close>

type_synonym byte = "8 word"

datatype track_kind = Audio | Video

datatype ready_state = Live | Ended

record track =
  kind :: track_kind
  enabled :: bool
  readyState :: ready_state

type_synonym media_stream = "track list"

record blob =
  bytes :: "byte list"
  mime :: string

datatype recording_state = Inactive | Capturing

record recorder =
  source :: nat
  mimeType :: string
  rstate :: recording_state
  stopTaskQueued :: bool

record timer =
  delay :: nat
  armed :: bool

datatype dom_exception = NotSupportedError

subsection \<open>The page elements the script writes to\<close>

record dom =
  cameraVideo_srcObject :: "nat option"
  cameraVideo_hidden :: bool
  playbackVideo_hidden :: bool
  playbackVideo_src :: "nat option"
  recordButton_disabled :: bool
  recordButton_hidden :: bool
  recordButton_innerHTML :: string
  recordButton_className :: string
  resetButton_hidden :: bool
  downloadButton_hidden :: bool
  recordingIndicator_hidden :: bool
  micButton_className :: string
  micButton_innerHTML :: string
  recordingTime_textContent :: string

subsection \<open>The state: script variables, browser objects, page\<close>

record state =
  stream :: "nat option"
  mediaRecorder :: "nat option"
  recordedChunks :: "blob list"
  isRecording :: bool
  recordedVideoUrl :: "nat option"
  isMicEnabled :: bool
  recordingTime :: nat
  timerInterval :: "nat option"
  isPreviewMode :: bool
  streams :: "media_stream list"
  recorders :: "recorder list"
  objectURLs :: "blob option list"
  intervals :: "timer list"
  pendingGetUserMedia :: "bool list"
  mimeTypeSupported :: bool
  alerts :: "string list"
  downloads :: "(nat \<times> string) list"
  loaded :: bool
  unloaded :: bool
  page :: dom

text \<open>
  Lines 2 to 10 of the script. The markup of the page is not part of the sources, so the
  initial page and the answer of the browser to \<^verbatim>\<open>video/webm;codecs=vp9\<close>
  are parameters.
\<close>

definition init :: "dom \<Rightarrow> bool \<Rightarrow> state" where
  "init d vp9 =
     \<lparr> stream = None, mediaRecorder = None, recordedChunks = [], isRecording = False,
       recordedVideoUrl = None, isMicEnabled = True, recordingTime = 0,
       timerInterval = None, isPreviewMode = True,
       streams = [], recorders = [], objectURLs = [], intervals = [],
       pendingGetUserMedia = [], mimeTypeSupported = vp9, alerts = [], downloads = [],
       loaded = False, unloaded = False, page = d \<rparr>"

subsection \<open>Browser operations\<close>

definition map_at :: "nat \<Rightarrow> ('a \<Rightarrow> 'a) \<Rightarrow> 'a list \<Rightarrow> 'a list" where
  "map_at i f xs = (if i < length xs then xs[i := f (xs ! i)] else xs)"

definition stop_track :: "track \<Rightarrow> track" where
  "stop_track t = t\<lparr>readyState := Ended\<rparr>"

definition track_live :: "track \<Rightarrow> bool" where
  "track_live t = (readyState t = Live)"

text \<open>A stream is active while at least one of its tracks has not ended.\<close>

definition stream_active :: "media_stream \<Rightarrow> bool" where
  "stream_active ts = list_ex track_live ts"

definition active_streams :: "state \<Rightarrow> nat" where
  "active_streams s = length (filter stream_active (streams s))"

text \<open>
  \<^verbatim>\<open>getUserMedia({video: ..., audio: a})\<close>, once granted, delivers a new
  stream with one video track and, when audio was asked for, one audio track.
\<close>

definition new_stream :: "bool \<Rightarrow> media_stream" where
  "new_stream a =
     (if a then [\<lparr>kind = Audio, enabled = True, readyState = Live\<rparr>] else []) @
     [\<lparr>kind = Video, enabled = True, readyState = Live\<rparr>]"

definition blob_size :: "blob \<Rightarrow> nat" where
  "blob_size b = length (bytes b)"

text \<open>\<^verbatim>\<open>new Blob(parts, {type: t})\<close>: the parts' bytes in order.\<close>

definition Blob :: "blob list \<Rightarrow> string \<Rightarrow> blob" where
  "Blob parts t = \<lparr>bytes = concat (map bytes parts), mime = t\<rparr>"

definition live_urls :: "state \<Rightarrow> nat" where
  "live_urls s = length (filter (\<lambda>u. u \<noteq> None) (objectURLs s))"

definition armed_timers :: "state \<Rightarrow> nat" where
  "armed_timers s = length (filter armed (intervals s))"

text \<open>
  \<^verbatim>\<open>clearInterval(id)\<close>: a null or unknown id is ignored.
\<close>

definition clearInterval :: "nat option \<Rightarrow> state \<Rightarrow> state" where
  "clearInterval h s =
     (case h of None \<Rightarrow> s
      | Some t \<Rightarrow> s\<lparr>intervals := map_at t (\<lambda>x. x\<lparr>armed := False\<rparr>) (intervals s)\<rparr>)"

text \<open>
  \<^verbatim>\<open>recorder.stop()\<close>: nothing on an inactive recorder; otherwise the recorder
  becomes inactive at once and a task is queued that delivers the last fragment and then
  the stop event.
\<close>

definition stop_recorder :: "recorder \<Rightarrow> recorder" where
  "stop_recorder r =
     (if rstate r = Inactive then r else r\<lparr>rstate := Inactive, stopTaskQueued := True\<rparr>)"

subsection \<open>Display helpers\<close>

text \<open>\<^verbatim>\<open>Number.prototype.toString\<close> on a natural number, in base ten.\<close>

fun toString :: "nat \<Rightarrow> string" where
  "toString n =
     (if n < 10 then [''0123456789'' ! n]
      else toString (n div 10) @ [''0123456789'' ! (n mod 10)])"

declare toString.simps [simp del]

definition padStart :: "nat \<Rightarrow> char \<Rightarrow> string \<Rightarrow> string" where
  "padStart n c str = replicate (n - length str) c @ str"

definition updateRecordingUI :: "state \<Rightarrow> state" where
  \<open>updateRecordingUI s =
     (if isRecording s then
        s\<lparr>page := (page s)
          \<lparr>recordButton_innerHTML := ''<i data-lucide="square"></i><span>Stop Recording</span>'',
           recordButton_className := ''btn btn-danger'',
           recordingIndicator_hidden := False\<rparr>\<rparr>
      else
        s\<lparr>page := (page s)
          \<lparr>recordButton_innerHTML := ''<i data-lucide="camera"></i><span>Start Recording</span>'',
           recordButton_className := ''btn btn-primary'',
           recordingIndicator_hidden := True\<rparr>\<rparr>)\<close>

definition updateMicrophoneUI :: "state \<Rightarrow> state" where
  \<open>updateMicrophoneUI s =
     (if isMicEnabled s then
        s\<lparr>page := (page s)
          \<lparr>micButton_className := ''mic-button mic-enabled'',
           micButton_innerHTML := ''<i data-lucide="mic"></i>''\<rparr>\<rparr>
      else
        s\<lparr>page := (page s)
          \<lparr>micButton_className := ''mic-button mic-disabled'',
           micButton_innerHTML := ''<i data-lucide="mic-off"></i>''\<rparr>\<rparr>)\<close>

definition updateRecordingTime :: "state \<Rightarrow> state" where
  "updateRecordingTime s =
     (let mins = recordingTime s div 60;
          secs = recordingTime s mod 60;
          timeString = padStart 2 CHR ''0'' (toString mins) @ '':'' @
                       padStart 2 CHR ''0'' (toString secs)
      in s\<lparr>page := (page s)\<lparr>recordingTime_textContent := ''REC '' @ timeString\<rparr>\<rparr>)"

definition switchToPreviewMode :: "state \<Rightarrow> state" where
  "switchToPreviewMode s =
     s\<lparr>isPreviewMode := True,
       page := (page s)
         \<lparr>cameraVideo_hidden := False,
          playbackVideo_hidden := True,
          recordButton_hidden := False,
          resetButton_hidden := True,
          downloadButton_hidden := True\<rparr>\<rparr>"

definition switchToPlaybackMode :: "state \<Rightarrow> state" where
  "switchToPlaybackMode s =
     s\<lparr>isPreviewMode := False,
       page := (page s)
         \<lparr>cameraVideo_hidden := True,
          playbackVideo_hidden := False,
          playbackVideo_src := recordedVideoUrl s,
          recordButton_hidden := True,
          resetButton_hidden := False,
          downloadButton_hidden := False\<rparr>\<rparr>"

subsection \<open>Acquiring the camera\<close>

text \<open>
  \<^verbatim>\<open>initializeCamera\<close> is asynchronous. The call itself only issues the
  request, with the value \<^verbatim>\<open>isMicEnabled\<close> has at that moment; the rest of
  its body runs when the browser answers. Requests are answered in the order they were made.
\<close>

definition initializeCamera :: "state \<Rightarrow> state" where
  "initializeCamera s = s\<lparr>pendingGetUserMedia := pendingGetUserMedia s @ [isMicEnabled s]\<rparr>"

definition initializeCamera_granted :: "state \<Rightarrow> state" where
  "initializeCamera_granted s =
     (case pendingGetUserMedia s of
        [] \<Rightarrow> s
      | a # rest \<Rightarrow>
          (let h = length (streams s)
           in s\<lparr>pendingGetUserMedia := rest,
                streams := streams s @ [new_stream a],
                stream := Some h,
                page := (page s)\<lparr>cameraVideo_srcObject := Some h,
                                 recordButton_disabled := False\<rparr>\<rparr>))"

definition initializeCamera_denied :: "state \<Rightarrow> state" where
  "initializeCamera_denied s =
     (case pendingGetUserMedia s of
        [] \<Rightarrow> s
      | a # rest \<Rightarrow>
          s\<lparr>pendingGetUserMedia := rest,
            alerts := alerts s @
              [''Unable to access camera. Please check permissions and reload the page.'']\<rparr>)"

subsection \<open>Recording\<close>

definition stream_usable :: "nat \<Rightarrow> state \<Rightarrow> bool" where
  "stream_usable h s = (h < length (streams s) \<and> stream_active (streams s ! h))"

text \<open>
  \<^verbatim>\<open>startRecording\<close>. The constructor of the recorder throws when the
  browser does not support the requested type, and \<^verbatim>\<open>start()\<close> throws on a
  stream that is no longer active; the assignments made before the throw stay. The result
  pairs the exception, if any, with the state.
\<close>

definition startRecording :: "state \<Rightarrow> dom_exception option \<times> state" where
  "startRecording s =
     (case stream s of
        None \<Rightarrow> (None, s)
      | Some h \<Rightarrow>
          (let s1 = s\<lparr>recordedChunks := []\<rparr>
           in if \<not> mimeTypeSupported s1 then (Some NotSupportedError, s1)
              else
                (let r = length (recorders s1);
                     s2 = s1\<lparr>recorders := recorders s1 @
                               [\<lparr>source = h, mimeType = ''video/webm;codecs=vp9'',
                                 rstate = Inactive, stopTaskQueued = False\<rparr>],
                             mediaRecorder := Some r\<rparr>
                 in if \<not> stream_usable h s2 then (Some NotSupportedError, s2)
                    else
                      (let s3 = s2\<lparr>recorders :=
                                     map_at r (\<lambda>x. x\<lparr>rstate := Capturing\<rparr>) (recorders s2),
                                   isRecording := True,
                                   recordingTime := 0\<rparr>;
                           s4 = updateRecordingUI s3;
                           t = length (intervals s4)
                       in (None,
                           s4\<lparr>intervals := intervals s4 @ [\<lparr>delay = 1000, armed = True\<rparr>],
                              timerInterval := Some t\<rparr>)))))"

text \<open>The callback given to \<^verbatim>\<open>setInterval\<close>.\<close>

definition timerTick :: "state \<Rightarrow> state" where
  "timerTick s = updateRecordingTime (s\<lparr>recordingTime := recordingTime s + 1\<rparr>)"

text \<open>
  The two handlers every recorder gets. Both close over the module-level variables, so
  they do not depend on the recorder they are attached to.
\<close>

definition ondataavailable :: "blob \<Rightarrow> state \<Rightarrow> state" where
  "ondataavailable b s =
     (if 0 < blob_size b then s\<lparr>recordedChunks := recordedChunks s @ [b]\<rparr> else s)"

definition onstop :: "state \<Rightarrow> state" where
  "onstop s =
     (let b = Blob (recordedChunks s) ''video/webm'';
          u = length (objectURLs s)
      in switchToPlaybackMode
           (s\<lparr>objectURLs := objectURLs s @ [Some b], recordedVideoUrl := Some u\<rparr>))"

definition stopRecording :: "state \<Rightarrow> state" where
  "stopRecording s =
     (case mediaRecorder s of
        None \<Rightarrow> s
      | Some r \<Rightarrow>
          if isRecording s then
            updateRecordingUI
              (clearInterval (timerInterval s)
                 (s\<lparr>recorders := map_at r stop_recorder (recorders s),
                    isRecording := False\<rparr>))
          else s)"

definition toggleRecording :: "state \<Rightarrow> dom_exception option \<times> state" where
  "toggleRecording s = (if isRecording s then (None, stopRecording s) else startRecording s)"

definition resetRecording :: "state \<Rightarrow> state" where
  "resetRecording s =
     (let s1 = (case recordedVideoUrl s of
                  None \<Rightarrow> s
                | Some u \<Rightarrow> s\<lparr>objectURLs := map_at u (\<lambda>_. None) (objectURLs s),
                               recordedVideoUrl := None\<rparr>);
          s2 = s1\<lparr>recordedChunks := [], recordingTime := 0, isPreviewMode := True\<rparr>
      in initializeCamera (switchToPreviewMode s2))"

subsection \<open>Download\<close>

text \<open>
  The clock, as the calendar fields of \<^verbatim>\<open>new Date()\<close> in UTC (the month
  counted from 1, as it is printed). \<^verbatim>\<open>toISOString\<close> prints four digits for
  the years 0 to 9999 and a sign with six digits outside.
\<close>

record date =
  year :: int
  month :: nat
  day :: nat
  hours :: nat
  minutes :: nat
  seconds :: nat
  milliseconds :: nat

definition toISOString :: "date \<Rightarrow> string" where
  "toISOString d =
     (if 0 \<le> year d \<and> year d \<le> 9999 then padStart 4 CHR ''0'' (toString (nat (year d)))
      else (if year d < 0 then ''-'' else ''+'') @
           padStart 6 CHR ''0'' (toString (nat \<bar>year d\<bar>))) @
     ''-'' @ padStart 2 CHR ''0'' (toString (month d)) @
     ''-'' @ padStart 2 CHR ''0'' (toString (day d)) @
     ''T'' @ padStart 2 CHR ''0'' (toString (hours d)) @
     '':'' @ padStart 2 CHR ''0'' (toString (minutes d)) @
     '':'' @ padStart 2 CHR ''0'' (toString (seconds d)) @
     ''.'' @ padStart 3 CHR ''0'' (toString (milliseconds d)) @ ''Z''"

definition replace_colons :: "string \<Rightarrow> string" where
  "replace_colons str = map (\<lambda>c. if c = CHR '':'' then CHR ''-'' else c) str"

definition download_name :: "date \<Rightarrow> string" where
  "download_name d =
     ''interview-recording-'' @ replace_colons (take 19 (toISOString d)) @ ''.webm''"

text \<open>
  \<^verbatim>\<open>downloadVideo\<close>: the anchor is created, clicked and removed again; what
  remains is the download the click started.
\<close>

definition downloadVideo :: "date \<Rightarrow> state \<Rightarrow> state" where
  "downloadVideo d s =
     (case recordedVideoUrl s of
        None \<Rightarrow> s
      | Some u \<Rightarrow> s\<lparr>downloads := downloads s @ [(u, download_name d)]\<rparr>)"

subsection \<open>Microphone\<close>

definition set_audio :: "bool \<Rightarrow> track \<Rightarrow> track" where
  "set_audio b t = (if kind t = Audio then t\<lparr>enabled := b\<rparr> else t)"

definition toggleMicrophone :: "state \<Rightarrow> state" where
  "toggleMicrophone s =
     (let s1 = s\<lparr>isMicEnabled := \<not> isMicEnabled s\<rparr>;
          s2 = (case stream s1 of
                  None \<Rightarrow> s1
                | Some h \<Rightarrow>
                    s1\<lparr>streams := map_at h (map (set_audio (isMicEnabled s1))) (streams s1)\<rparr>)
      in updateMicrophoneUI s2)"

subsection \<open>Page unload\<close>

definition beforeunload :: "state \<Rightarrow> state" where
  "beforeunload s =
     (let s1 = (case stream s of
                  None \<Rightarrow> s
                | Some h \<Rightarrow> s\<lparr>streams := map_at h (map stop_track) (streams s)\<rparr>)
      in case timerInterval s1 of
           None \<Rightarrow> s1
         | Some t \<Rightarrow> clearInterval (Some t) s1)"

subsection \<open>The event system\<close>

text \<open>
  The script runs only when the browser invokes one of its handlers: page load and unload,
  the answer to a camera request, a click on a control, a fragment or the stop event of a
  recorder, a tick of an interval. \<open>can_fire\<close> says when the browser can deliver an
  event. A control that the script has hidden or disabled cannot be clicked; a recorder
  delivers fragments while it captures and in its stop task; an interval ticks while it is
  armed; nothing is delivered after unload. The stop task that \<^verbatim>\<open>stop()\<close>
  queues is one more event: other events, clicks among them, may be delivered before it.

  An exception that escapes a click handler ends that handler; the state it left stays.
\<close>

datatype event =
    Load
  | CameraGranted
  | CameraDenied
  | ClickRecord
  | ClickReset
  | ClickDownload date
  | ClickMic
  | Fragment nat blob
  | StopEvent nat
  | Tick nat
  | Unload

fun can_fire :: "event \<Rightarrow> state \<Rightarrow> bool" where
  "can_fire Load s = (\<not> unloaded s \<and> \<not> loaded s)"
| "can_fire CameraGranted s = (\<not> unloaded s \<and> pendingGetUserMedia s \<noteq> [])"
| "can_fire CameraDenied s = (\<not> unloaded s \<and> pendingGetUserMedia s \<noteq> [])"
| "can_fire ClickRecord s =
     (\<not> unloaded s \<and> \<not> recordButton_hidden (page s) \<and> \<not> recordButton_disabled (page s))"
| "can_fire ClickReset s = (\<not> unloaded s \<and> \<not> resetButton_hidden (page s))"
| "can_fire (ClickDownload d) s = (\<not> unloaded s \<and> \<not> downloadButton_hidden (page s))"
| "can_fire ClickMic s = (\<not> unloaded s)"
| "can_fire (Fragment r b) s =
     (\<not> unloaded s \<and> r < length (recorders s) \<and>
      (rstate (recorders s ! r) = Capturing \<or> stopTaskQueued (recorders s ! r)))"
| "can_fire (StopEvent r) s =
     (\<not> unloaded s \<and> r < length (recorders s) \<and> stopTaskQueued (recorders s ! r))"
| "can_fire (Tick t) s =
     (\<not> unloaded s \<and> t < length (intervals s) \<and> armed (intervals s ! t))"
| "can_fire Unload s = (\<not> unloaded s)"

fun fire :: "event \<Rightarrow> state \<Rightarrow> state" where
  "fire Load s = initializeCamera (s\<lparr>loaded := True\<rparr>)"
| "fire CameraGranted s = initializeCamera_granted s"
| "fire CameraDenied s = initializeCamera_denied s"
| "fire ClickRecord s = snd (toggleRecording s)"
| "fire ClickReset s = resetRecording s"
| "fire (ClickDownload d) s = downloadVideo d s"
| "fire ClickMic s = toggleMicrophone s"
| "fire (Fragment r b) s = ondataavailable b s"
| "fire (StopEvent r) s =
     onstop (s\<lparr>recorders := map_at r (\<lambda>x. x\<lparr>stopTaskQueued := False\<rparr>) (recorders s)\<rparr>)"
| "fire (Tick t) s = timerTick s"
| "fire Unload s = (beforeunload s)\<lparr>unloaded := True\<rparr>"

fun run :: "event list \<Rightarrow> state \<Rightarrow> state option" where
  "run [] s = Some s"
| "run (e # es) s = (if can_fire e s then run es (fire e s) else None)"

text \<open>Handlers invoked one after the other, whatever the page shows.\<close>

definition deliver :: "event list \<Rightarrow> state \<Rightarrow> state" where
  "deliver es s = foldl (\<lambda>s e. fire e s) s es"

subsection \<open>The session of the specification, read off the script's variables\<close>

datatype session_state = Idle | Recording | Stopped

datatype view_mode = Preview | Playback

definition session :: "state \<Rightarrow> session_state" where
  "session s =
     (if isRecording s then Recording
      else if recordedVideoUrl s \<noteq> None then Stopped
      else Idle)"

definition viewMode :: "state \<Rightarrow> view_mode" where
  "viewMode s = (if isPreviewMode s then Preview else Playback)"

text \<open>
  Modelled from the spec: the markup of the page (index.html) is not among the sources. The
  session starts Idle in Preview mode, with the reset and download controls hidden and the
  record control disabled until the camera is acquired (sections 4.1 to 4.3). The theorems
  below hold for every initial page; this one is used for the concrete runs.
\<close>

definition page0 :: dom where
  \<open>page0 =
     \<lparr> cameraVideo_srcObject = None, cameraVideo_hidden = False,
       playbackVideo_hidden = True, playbackVideo_src = None,
       recordButton_disabled = True, recordButton_hidden = False,
       recordButton_innerHTML = ''<i data-lucide="camera"></i><span>Start Recording</span>'',
       recordButton_className = ''btn btn-primary'',
       resetButton_hidden = True, downloadButton_hidden = True,
       recordingIndicator_hidden = True,
       micButton_className = ''mic-button mic-enabled'',
       micButton_innerHTML = ''<i data-lucide="mic"></i>'',
       recordingTime_textContent = ''REC 00:00'' \<rparr>\<close>

subsection \<open>Reading a run\<close>



fun record_or_reset :: "event \<Rightarrow> bool" where
  "record_or_reset ClickRecord = True"
| "record_or_reset ClickReset = True"
| "record_or_reset e = False"

definition valid_date :: "date \<Rightarrow> bool" where
  "valid_date d =
     (0 \<le> year d \<and> year d \<le> 9999 \<and> 1 \<le> month d \<and> month d \<le> 12 \<and>
      1 \<le> day d \<and> day d \<le> 31 \<and> hours d < 24 \<and> minutes d < 60 \<and> seconds d < 60 \<and>
      milliseconds d < 1000)"

subsection \<open>Invariants of the reachable states\<close>

definition timer_inv :: "state \<Rightarrow> bool" where
  "timer_inv s =
     (armed_timers s = (if isRecording s \<and> \<not> unloaded s then 1 else 0) \<and>
      (isRecording s \<and> \<not> unloaded s \<longrightarrow>
         (\<exists>t. timerInterval s = Some t \<and> t < length (intervals s) \<and>
              armed (intervals s ! t))) \<and>
      (isRecording s \<longrightarrow>
         (\<exists>r. mediaRecorder s = Some r \<and> r < length (recorders s) \<and>
              rstate (recorders s ! r) = Capturing)) \<and>
      list_all (\<lambda>t. delay t = 1000) (intervals s))"

subsection \<open>Concrete data for the examples\<close>

definition frag1 :: blob where
  "frag1 = \<lparr>bytes = [0x1A, 0x45, 0xDF, 0xA3], mime = ''video/webm;codecs=vp9''\<rparr>"



definition date1 :: date where
  "date1 = \<lparr>year = 2024, month = 3, day = 7, hours = 9, minutes = 5, seconds = 2,
            milliseconds = 45\<rparr>"

text \<open>The page with the camera granted and a recording under way, one second in.\<close>

definition recording1 :: state where
  "recording1 =
     deliver [Load, CameraGranted, ClickRecord, Fragment 0 frag1, Tick 0] (init page0 True)"


text \<open>The page showing the first finished recording.\<close>

definition stopped1 :: state where
  "stopped1 =
     deliver [Load, CameraGranted, ClickRecord, Fragment 0 frag1, ClickRecord, StopEvent 0]
       (init page0 True)"

definition two_seconds :: "event list" where
  "two_seconds = [Load, CameraGranted, ClickRecord, Tick 0, Tick 0]"



section \<open>Properties\<close>

subsection \<open>Counting in lists updated at one index\<close>

lemma count_update:
  "i < length xs \<Longrightarrow>
   length (filter P (xs[i := y])) + (if P (xs ! i) then 1 else 0) =
   length (filter P xs) + (if P y then 1 else 0)"
proof (induction xs arbitrary: i)
  case Nil
  then show ?case by simp
next
  case (Cons x xs)
  then show ?case by (cases i) auto
qed

lemma count_map_at_same:
  "(\<And>x. P (f x) = P x) \<Longrightarrow> length (filter P (map_at i f xs)) = length (filter P xs)"
  using count_update [of i xs P "f (xs ! i)"] by (auto simp: map_at_def)

lemma count_map_at_off:
  "(\<And>x. \<not> P (f x)) \<Longrightarrow>
   length (filter P (map_at i f xs)) =
   length (filter P xs) - (if i < length xs \<and> P (xs ! i) then 1 else 0)"
  using count_update [of i xs P "f (xs ! i)"] by (auto simp: map_at_def)

lemma count_pos: "i < length xs \<Longrightarrow> P (xs ! i) \<Longrightarrow> 0 < length (filter P xs)"
  by (metis filter_empty_conv length_greater_0_conv nth_mem)

lemma length_map_at [simp]: "length (map_at i f xs) = length xs"
  by (simp add: map_at_def)

lemma nth_map_at:
  "map_at i f xs ! j = (if j = i \<and> i < length xs then f (xs ! i) else xs ! j)"
  by (simp add: map_at_def)

lemma list_all_map_at:
  "list_all P xs \<Longrightarrow> (\<And>x. P x \<Longrightarrow> P (f x)) \<Longrightarrow> list_all P (map_at i f xs)"
  by (auto simp: map_at_def list_all_length nth_list_update)

lemma count_two:
  assumes "i < j" "j < length xs" "P (xs ! i)" "P (xs ! j)"
  shows "2 \<le> length (filter P xs)"
proof -
  have "length (filter P xs) =
        length (filter P (take j xs)) + length (filter P (drop j xs))"
    by (metis append_take_drop_id filter_append length_append)
  moreover have "0 < length (filter P (take j xs))"
    using assms count_pos [of i "take j xs" P] by simp
  moreover have "0 < length (filter P (drop j xs))"
    using assms count_pos [of 0 "drop j xs" P] by simp
  ultimately show ?thesis by linarith
qed

lemma count_one_unique:
  assumes "length (filter P xs) = 1" "i < length xs" "P (xs ! i)" "j < length xs" "P (xs ! j)"
  shows "i = j"
proof (rule ccontr)
  assume "i \<noteq> j"
  then consider "i < j" | "j < i" by linarith
  then show False
  proof cases
    case 1
    from count_two [OF 1 assms(4) assms(3) assms(5)] assms(1) show False by simp
  next
    case 2
    from count_two [OF 2 assms(2) assms(5) assms(3)] assms(1) show False by simp
  qed
qed

lemmas script_defs =
  startRecording_def stopRecording_def toggleRecording_def resetRecording_def onstop_def
  ondataavailable_def timerTick_def updateRecordingTime_def updateRecordingUI_def
  updateMicrophoneUI_def switchToPreviewMode_def switchToPlaybackMode_def
  initializeCamera_def initializeCamera_granted_def initializeCamera_denied_def
  downloadVideo_def toggleMicrophone_def beforeunload_def clearInterval_def

subsection \<open>The timer\<close>

lemma timer_inv_init: "timer_inv (init d v)"
  by (simp add: timer_inv_def init_def armed_timers_def)

lemma timer_inv_fire:
  assumes "timer_inv s" "can_fire e s"
  shows "timer_inv (fire e s)"
proof (cases e)
  case ClickRecord
  show ?thesis
  proof (cases "isRecording s")
    case True
    with assms ClickRecord show ?thesis
      by (auto simp del: length_0_conv
               simp: timer_inv_def script_defs Let_def armed_timers_def count_map_at_off
               intro!: list_all_map_at
               split: option.splits)
  next
    case False
    with assms ClickRecord show ?thesis
      by (auto simp del: length_0_conv
               simp: timer_inv_def script_defs Let_def armed_timers_def nth_append
                     nth_map_at
               split: option.splits)
  qed
next
  case Unload
  with assms show ?thesis
    by (auto simp del: length_0_conv
             simp: timer_inv_def script_defs Let_def armed_timers_def count_map_at_off
             intro!: list_all_map_at
             split: option.splits)
next
  case (StopEvent r)
  with assms show ?thesis
    by (auto simp del: length_0_conv
             simp: timer_inv_def script_defs Let_def armed_timers_def nth_map_at
             split: option.splits)
qed (use assms in \<open>auto simp del: length_0_conv
             simp: timer_inv_def script_defs Let_def armed_timers_def
             split: option.splits list.splits\<close>)

lemma timer_inv_run: "timer_inv s \<Longrightarrow> run es s = Some s' \<Longrightarrow> timer_inv s'"
proof (induction es arbitrary: s)
  case Nil
  then show ?case by simp
next
  case (Cons e es)
  then show ?case by (auto split: if_splits intro: timer_inv_fire)
qed

lemma timer_inv_reachable: "run es (init d v) = Some s \<Longrightarrow> timer_inv s"
  using timer_inv_run [OF timer_inv_init] .


lemma stop_disarms: "timer_inv s \<Longrightarrow> isRecording s \<Longrightarrow> armed_timers (stopRecording s) = 0"
  by (auto simp del: length_0_conv
           simp: timer_inv_def script_defs armed_timers_def count_map_at_off
           split: option.splits if_splits)

lemma quiet_fire:
  assumes "armed_timers s = 0" "can_fire e s" "\<not> record_or_reset e"
  shows "recordingTime (fire e s) = recordingTime s \<and> armed_timers (fire e s) = 0"
proof (cases e)
  case (Tick t)
  with assms show ?thesis
    using count_pos [of t "intervals s" armed] by (simp add: armed_timers_def)
next
  case Unload
  with assms show ?thesis
    by (auto simp del: length_0_conv
             simp: script_defs Let_def armed_timers_def count_map_at_off
             split: option.splits)
qed (use assms in \<open>auto simp del: length_0_conv
             simp: script_defs Let_def armed_timers_def
             split: option.splits list.splits\<close>)

lemma quiet_run:
  "armed_timers s = 0 \<Longrightarrow> list_all (\<lambda>e. \<not> record_or_reset e) es \<Longrightarrow> run es s = Some s' \<Longrightarrow>
   recordingTime s' = recordingTime s \<and> armed_timers s' = 0"
proof (induction es arbitrary: s)
  case Nil
  then show ?case by simp
next
  case (Cons e es)
  from Cons.prems have f: "can_fire e s" and r: "run es (fire e s) = Some s'"
    and q: "\<not> record_or_reset e" and qs: "list_all (\<lambda>e. \<not> record_or_reset e) es"
    by (auto split: if_splits)
  from quiet_fire [OF Cons.prems(1) f q] Cons.IH [OF _ qs r] show ?case by simp
qed

subsection \<open>Concrete runs\<close>

lemma two_seconds_runs:
  "map_option (\<lambda>s. (isRecording s, unloaded s, recordingTime s))
     (run two_seconds (init page0 True)) = Some (True, False, 2)"
  unfolding two_seconds_def by code_simp

subsection \<open>Fragments, file names\<close>

lemma deliver_Nil [simp]: "deliver [] s = s"
  by (simp add: deliver_def)

lemma deliver_Cons [simp]: "deliver (e # es) s = deliver es (fire e s)"
  by (simp add: deliver_def)








lemma length_padStart: "length (padStart n c str) = max n (length str)"
  by (simp add: padStart_def)

lemma toString_digits: "set (toString n) \<subseteq> set ''0123456789''"
proof (induction n rule: toString.induct)
  case (1 n)
  have d: "''0123456789'' ! k \<in> set ''0123456789''" if "k < 10" for k
    using that nth_mem [of k "''0123456789''"] by simp
  show ?case
  proof (cases "n < 10")
    case True
    then show ?thesis using d [of n] by (subst toString.simps) simp
  next
    case False
    with 1 d [of "n mod 10"] show ?thesis by (subst toString.simps) simp
  qed
qed

lemma toString_len1: "n < 10 \<Longrightarrow> length (toString n) = 1"
  by (subst toString.simps) simp

lemma toString_len2: "n < 100 \<Longrightarrow> length (toString n) \<le> 2"
  by (subst toString.simps) (simp add: toString_len1)

lemma toString_len3: "n < 1000 \<Longrightarrow> length (toString n) \<le> 3"
  using toString_len2 [of "n div 10"] by (subst toString.simps) simp

lemma toString_len4: "n < 10000 \<Longrightarrow> length (toString n) \<le> 4"
  using toString_len3 [of "n div 10"] by (subst toString.simps) simp

lemma replace_colons_append [simp]:
  "replace_colons (xs @ ys) = replace_colons xs @ replace_colons ys"
  by (simp add: replace_colons_def)

lemma replace_colons_pad:
  "replace_colons (padStart k CHR ''0'' (toString n)) = padStart k CHR ''0'' (toString n)"
proof -
  have "CHR '':'' \<notin> set (padStart k CHR ''0'' (toString n))"
    using toString_digits [of n] by (auto simp: padStart_def)
  then show ?thesis by (auto simp: replace_colons_def intro!: map_idI)
qed

lemma replace_colons_Cons [simp]:
  "replace_colons (c # cs) = (if c = CHR '':'' then CHR ''-'' else c) # replace_colons cs"
  by (simp add: replace_colons_def)

lemma replace_colons_Nil [simp]: "replace_colons [] = []"
  by (simp add: replace_colons_def)

lemma iso_seconds:
  assumes "valid_date d"
  shows "take 19 (toISOString d) =
     padStart 4 CHR ''0'' (toString (nat (year d))) @ ''-'' @
     padStart 2 CHR ''0'' (toString (month d)) @ ''-'' @
     padStart 2 CHR ''0'' (toString (day d)) @ ''T'' @
     padStart 2 CHR ''0'' (toString (hours d)) @ '':'' @
     padStart 2 CHR ''0'' (toString (minutes d)) @ '':'' @
     padStart 2 CHR ''0'' (toString (seconds d))"
    (is "_ = ?pre")
proof -
  have "nat (year d) < 10000" using assms unfolding valid_date_def by linarith
  then have y: "length (padStart 4 CHR ''0'' (toString (nat (year d)))) = 4"
    using toString_len4 [of "nat (year d)"] by (simp add: length_padStart)
  have two: "length (padStart 2 CHR ''0'' (toString n)) = 2" if "n < 100" for n
    using toString_len2 [OF that] by (simp add: length_padStart)
  have "length ?pre = 19"
    using assms y two [of "month d"] two [of "day d"] two [of "hours d"]
      two [of "minutes d"] two [of "seconds d"]
    by (simp add: valid_date_def)
  moreover have "toISOString d =
      ?pre @ ''.'' @ padStart 3 CHR ''0'' (toString (milliseconds d)) @ ''Z''"
    using assms by (simp add: toISOString_def valid_date_def)
  ultimately show ?thesis by (metis append_eq_conv_conj)
qed

section \<open>The claims\<close>

text \<open>
  C1. The record control stays visible and enabled after \<^verbatim>\<open>stopRecording\<close>
  until the stop event arrives. Two recordings started and stopped by four clicks, their two
  stop events arriving afterwards: the stop handler of the second creates its object URL
  without revoking the one of the first, so two object URLs are outstanding and only the
  second is still referenced by \<^verbatim>\<open>recordedVideoUrl\<close>.
\<close>

theorem C1_two_outstanding_urls:
  "map_option (\<lambda>s. (live_urls s, recordedVideoUrl s, length (objectURLs s)))
     (run [Load, CameraGranted, ClickRecord, ClickRecord, ClickRecord, ClickRecord,
           StopEvent 0, StopEvent 1] (init page0 True)) =
   Some (2, Some 1, 2)"
  by code_simp

text \<open>
  C2. After a reset the camera is requested again while the stream of the first request is
  still running: once the request is granted there are two active streams, the first no
  longer referenced by \<^verbatim>\<open>stream\<close>.
\<close>

theorem C2_reset_leaves_two_streams:
  "map_option (\<lambda>s. (stream s, map stream_active (streams s), active_streams s))
     (run [Load, CameraGranted, ClickRecord, ClickRecord, StopEvent 0, ClickReset,
           CameraGranted] (init page0 True)) =
   Some (Some 1, [True, True], 2)"
  by code_simp

text \<open>
  C3, as the script has it. The record control calls \<^verbatim>\<open>toggleRecording\<close>,
  which during a recording calls \<^verbatim>\<open>stopRecording\<close> and never
  \<^verbatim>\<open>startRecording\<close>: no recorder and no interval is created, fragments and
  elapsed counter are left as they are, the recording ends and its interval is cleared. In
  every state the page can reach exactly one interval is armed while recording (before
  unload) and none otherwise.
\<close>

theorem C3_record_control_never_restarts:
  assumes "run es (init d v) = Some s"
  shows "armed_timers s = (if isRecording s \<and> \<not> unloaded s then 1 else 0) \<and>
         (isRecording s \<longrightarrow>
            toggleRecording s = (None, stopRecording s) \<and>
            recordedChunks (stopRecording s) = recordedChunks s \<and>
            recordingTime (stopRecording s) = recordingTime s \<and>
            length (recorders (stopRecording s)) = length (recorders s) \<and>
            length (intervals (stopRecording s)) = length (intervals s) \<and>
            \<not> isRecording (stopRecording s) \<and>
            armed_timers (stopRecording s) = 0)"
proof -
  have t: "timer_inv s" using timer_inv_reachable [OF assms] .
  then have "armed_timers s = (if isRecording s \<and> \<not> unloaded s then 1 else 0)"
    by (simp add: timer_inv_def)
  moreover have "isRecording s \<Longrightarrow> toggleRecording s = (None, stopRecording s)"
    by (simp add: toggleRecording_def)
  moreover have "isRecording s \<Longrightarrow> armed_timers (stopRecording s) = 0"
    using t by (rule stop_disarms)
  moreover have "isRecording s \<Longrightarrow>
      recordedChunks (stopRecording s) = recordedChunks s \<and>
      recordingTime (stopRecording s) = recordingTime s \<and>
      length (recorders (stopRecording s)) = length (recorders s) \<and>
      length (intervals (stopRecording s)) = length (intervals s) \<and>
      \<not> isRecording (stopRecording s)"
    using t by (auto simp: timer_inv_def script_defs split: option.splits)
  ultimately show ?thesis by blast
qed

theorem C3_witness:
  "(case run two_seconds (init page0 True) of
      None \<Rightarrow> False
    | Some s \<Rightarrow>
        isRecording s \<and> armed_timers s = 1 \<and>
        toggleRecording s = (None, stopRecording s) \<and>
        recordedChunks (stopRecording s) = recordedChunks s \<and>
        recordingTime (stopRecording s) = recordingTime s \<and>
        \<not> isRecording (stopRecording s) \<and>
        armed_timers (stopRecording s) = 0)"
proof -
  obtain s where r: "run two_seconds (init page0 True) = Some s"
    using two_seconds_runs by (cases "run two_seconds (init page0 True)") auto
  with two_seconds_runs have h: "isRecording s" "\<not> unloaded s" by simp_all
  from C3_record_control_never_restarts [OF r] r h show ?thesis by simp
qed

text \<open>
  \<^verbatim>\<open>startRecording\<close> itself has no guard on \<^verbatim>\<open>isRecording\<close>:
  called during a recording it clears the fragments, zeroes the counter and arms a second
  interval.
\<close>

theorem C3_counterexample:
  "isRecording recording1 \<and>
   \<not> (recordedChunks (snd (startRecording recording1)) = recordedChunks recording1 \<and>
      recordingTime (snd (startRecording recording1)) = recordingTime recording1 \<and>
      armed_timers (snd (startRecording recording1)) = 1)"
  by code_simp

text \<open>
  C4. Unloading the page while a finished recording is shown stops the tracks of the stream
  and clears the interval, and leaves the object URL of the artifact unreleased.
\<close>

theorem C4_unload_keeps_artifact:
  "map_option (\<lambda>s. (recordedVideoUrl s, live_urls s, active_streams s, armed_timers s))
     (run [Load, CameraGranted, ClickRecord, ClickRecord, StopEvent 0, Unload]
        (init page0 True)) =
   Some (Some 0, 1, 0, 0)"
  by code_simp



text \<open>
  C6. Illegal transitions are no-ops and raise nothing: \<^verbatim>\<open>startRecording\<close>
  without a stream returns normally with the state as it was, and
  \<^verbatim>\<open>stopRecording\<close> outside a recording leaves the state as it was.
\<close>

theorem C6_illegal_transitions_are_noops:
  "(stream s = None \<longrightarrow> startRecording s = (None, s)) \<and>
   (\<not> isRecording s \<longrightarrow> stopRecording s = s)"
  by (simp add: startRecording_def stopRecording_def split: option.splits)

theorem C6_witness:
  "stream (init page0 True) = None \<and> \<not> isRecording (init page0 True) \<and>
   startRecording (init page0 True) = (None, init page0 True) \<and>
   stopRecording (init page0 True) = init page0 True"
  using C6_illegal_transitions_are_noops [of "init page0 True"]
  by (simp add: init_def)

text \<open>
  C7. A click on the record control between \<^verbatim>\<open>stopRecording\<close> and the stop
  event starts a second recording; the stop event of the first then switches the page to
  playback: the session is Recording and the view is Playback.
\<close>

theorem C7_playback_while_recording:
  "map_option (\<lambda>s. (isRecording s, isPreviewMode s, session s, viewMode s))
     (run [Load, CameraGranted, ClickRecord, ClickRecord, ClickRecord, StopEvent 0]
        (init page0 True)) =
   Some (True, False, Recording, Playback)"
  by code_simp

text \<open>
  C8. In every reachable recording state a tick adds exactly one to the elapsed counter, and
  the only interval that can tick is the one-second interval the script holds. After
  \<^verbatim>\<open>stopRecording\<close> the counter has the value it had, no interval can tick
  any more, and the counter keeps that value over every further run of events up to the next
  use of the record or reset control.
\<close>

theorem C8_elapsed_counts_ticks_until_stop:
  assumes "run es (init d v) = Some s" "isRecording s"
  shows "recordingTime (timerTick s) = recordingTime s + 1 \<and>
         (\<forall>t. can_fire (Tick t) s \<longrightarrow>
              timerInterval s = Some t \<and> delay (intervals s ! t) = 1000 \<and>
              recordingTime (fire (Tick t) s) = recordingTime s + 1 \<and>
              isRecording (fire (Tick t) s)) \<and>
         recordingTime (stopRecording s) = recordingTime s \<and>
         (\<forall>t. \<not> can_fire (Tick t) (stopRecording s)) \<and>
         (\<forall>es' s'. list_all (\<lambda>e. \<not> record_or_reset e) es' \<and>
                   run es' (stopRecording s) = Some s' \<longrightarrow>
                   recordingTime s' = recordingTime s)"
proof -
  have t: "timer_inv s" using timer_inv_reachable [OF assms(1)] .
  have tick: "recordingTime (timerTick s) = recordingTime s + 1"
    by (simp add: timerTick_def updateRecordingTime_def Let_def)
  have only: "timerInterval s = Some t \<and> delay (intervals s ! t) = 1000 \<and>
              recordingTime (fire (Tick t) s) = recordingTime s + 1 \<and>
              isRecording (fire (Tick t) s)" if c: "can_fire (Tick t) s" for t
  proof -
    from c have u: "\<not> unloaded s" and tl: "t < length (intervals s)"
      and ta: "armed (intervals s ! t)" by simp_all
    from t u assms(2) obtain t' where t': "timerInterval s = Some t'"
      "t' < length (intervals s)" "armed (intervals s ! t')"
      and one: "length (filter armed (intervals s)) = 1"
      by (auto simp: timer_inv_def armed_timers_def)
    have "t = t'" using count_one_unique [OF one tl ta t'(2) t'(3)] .
    moreover from t tl have "delay (intervals s ! t) = 1000"
      by (simp add: timer_inv_def list_all_length)
    ultimately show ?thesis
      using t' tick assms(2) by (simp add: timerTick_def updateRecordingTime_def Let_def)
  qed
  have off: "armed_timers (stopRecording s) = 0"
    using stop_disarms [OF t assms(2)] .
  have same: "recordingTime (stopRecording s) = recordingTime s"
    by (simp add: script_defs split: option.splits)
  have none: "\<not> can_fire (Tick t) (stopRecording s)" for t
    using off count_pos [of t "intervals (stopRecording s)" armed]
    by (auto simp: armed_timers_def)
  have later: "recordingTime s' = recordingTime s"
    if "list_all (\<lambda>e. \<not> record_or_reset e) es'" "run es' (stopRecording s) = Some s'"
    for es' s'
    using quiet_run [OF off that] same by simp
  from tick only same none later show ?thesis by blast
qed

theorem C8_witness:
  "(case run two_seconds (init page0 True) of
      None \<Rightarrow> False
    | Some s \<Rightarrow>
        isRecording s \<and> recordingTime s = 2 \<and>
        recordingTime (timerTick s) = 3 \<and>
        recordingTime (stopRecording s) = 2 \<and>
        (\<forall>t. \<not> can_fire (Tick t) (stopRecording s)) \<and>
        (\<forall>es' s'. list_all (\<lambda>e. \<not> record_or_reset e) es' \<and>
                  run es' (stopRecording s) = Some s' \<longrightarrow>
                  recordingTime s' = 2))"
proof -
  obtain s where r: "run two_seconds (init page0 True) = Some s"
    using two_seconds_runs by (cases "run two_seconds (init page0 True)") auto
  with two_seconds_runs have h: "isRecording s" and n: "recordingTime s = 2" by simp_all
  from C8_elapsed_counts_ticks_until_stop [OF r h] r h n show ?thesis by simp
qed

text \<open>
  C9. For a clock reading in the years 0000 to 9999, the name of the download is
  \<^verbatim>\<open>interview-recording-\<close>, then the ISO string of the clock cut after the
  seconds with its colons turned into hyphens, then \<^verbatim>\<open>.webm\<close>. In the
  Stopped state \<^verbatim>\<open>downloadVideo\<close> emits the artifact under that name and
  changes neither the recording state, the fragments, the elapsed counter nor the artifact
  reference.
\<close>

theorem C9_download_name_and_frame:
  assumes "valid_date d" "session s = Stopped"
  shows "toISOString d =
           padStart 4 CHR ''0'' (toString (nat (year d))) @ ''-'' @
           padStart 2 CHR ''0'' (toString (month d)) @ ''-'' @
           padStart 2 CHR ''0'' (toString (day d)) @ ''T'' @
           padStart 2 CHR ''0'' (toString (hours d)) @ '':'' @
           padStart 2 CHR ''0'' (toString (minutes d)) @ '':'' @
           padStart 2 CHR ''0'' (toString (seconds d)) @ ''.'' @
           padStart 3 CHR ''0'' (toString (milliseconds d)) @ ''Z'' \<and>
         download_name d =
           ''interview-recording-'' @
           padStart 4 CHR ''0'' (toString (nat (year d))) @ ''-'' @
           padStart 2 CHR ''0'' (toString (month d)) @ ''-'' @
           padStart 2 CHR ''0'' (toString (day d)) @ ''T'' @
           padStart 2 CHR ''0'' (toString (hours d)) @ ''-'' @
           padStart 2 CHR ''0'' (toString (minutes d)) @ ''-'' @
           padStart 2 CHR ''0'' (toString (seconds d)) @ ''.webm'' \<and>
         (\<exists>u. recordedVideoUrl s = Some u \<and>
              downloads (downloadVideo d s) = downloads s @ [(u, download_name d)]) \<and>
         isRecording (downloadVideo d s) = isRecording s \<and>
         recordedChunks (downloadVideo d s) = recordedChunks s \<and>
         recordingTime (downloadVideo d s) = recordingTime s \<and>
         recordedVideoUrl (downloadVideo d s) = recordedVideoUrl s \<and>
         objectURLs (downloadVideo d s) = objectURLs s \<and>
         session (downloadVideo d s) = Stopped"
proof -
  have iso: "toISOString d =
           padStart 4 CHR ''0'' (toString (nat (year d))) @ ''-'' @
           padStart 2 CHR ''0'' (toString (month d)) @ ''-'' @
           padStart 2 CHR ''0'' (toString (day d)) @ ''T'' @
           padStart 2 CHR ''0'' (toString (hours d)) @ '':'' @
           padStart 2 CHR ''0'' (toString (minutes d)) @ '':'' @
           padStart 2 CHR ''0'' (toString (seconds d)) @ ''.'' @
           padStart 3 CHR ''0'' (toString (milliseconds d)) @ ''Z''"
    using assms(1) by (simp add: toISOString_def valid_date_def)
  have name: "download_name d =
           ''interview-recording-'' @
           padStart 4 CHR ''0'' (toString (nat (year d))) @ ''-'' @
           padStart 2 CHR ''0'' (toString (month d)) @ ''-'' @
           padStart 2 CHR ''0'' (toString (day d)) @ ''T'' @
           padStart 2 CHR ''0'' (toString (hours d)) @ ''-'' @
           padStart 2 CHR ''0'' (toString (minutes d)) @ ''-'' @
           padStart 2 CHR ''0'' (toString (seconds d)) @ ''.webm''"
    unfolding download_name_def iso_seconds [OF assms(1)]
    by (simp add: replace_colons_pad)
  from assms(2) obtain u where u: "recordedVideoUrl s = Some u"
    by (auto simp: session_def split: if_splits)
  from assms(2) have nr: "\<not> isRecording s" by (auto simp: session_def split: if_splits)
  have frame: "downloadVideo d s = s\<lparr>downloads := downloads s @ [(u, download_name d)]\<rparr>"
    using u by (simp add: downloadVideo_def)
  show ?thesis
    unfolding frame using iso name u nr by (simp add: session_def)
qed

theorem C9_witness:
  "valid_date date1 \<and> session stopped1 = Stopped \<and>
   toISOString date1 = ''2024-03-07T09:05:02.045Z'' \<and>
   download_name date1 = ''interview-recording-2024-03-07T09-05-02.webm'' \<and>
   downloads (downloadVideo date1 stopped1) =
     [(0, ''interview-recording-2024-03-07T09-05-02.webm'')] \<and>
   session (downloadVideo date1 stopped1) = Stopped"
proof -
  have v: "valid_date date1" by code_simp
  have st: "session stopped1 = Stopped" by code_simp
  have u: "recordedVideoUrl stopped1 = Some 0" by code_simp
  have dl: "downloads stopped1 = []" by code_simp
  have y: "padStart 4 CHR ''0'' (toString (nat (year date1))) = ''2024''" by code_simp
  have p: "padStart 2 CHR ''0'' (toString (month date1)) = ''03''"
    "padStart 2 CHR ''0'' (toString (day date1)) = ''07''"
    "padStart 2 CHR ''0'' (toString (hours date1)) = ''09''"
    "padStart 2 CHR ''0'' (toString (minutes date1)) = ''05''"
    "padStart 2 CHR ''0'' (toString (seconds date1)) = ''02''"
    "padStart 3 CHR ''0'' (toString (milliseconds date1)) = ''045''"
    by code_simp+
  from C9_download_name_and_frame [OF v st] v st u dl y p show ?thesis by simp
qed

text \<open>
  C10, as the script has it. \<^verbatim>\<open>toggleMicrophone\<close> never requests a stream
  and never replaces the current one: kinds, ready states and video tracks of every stream are
  as before, and the audio tracks of the current stream get the new value of
  \<^verbatim>\<open>isMicEnabled\<close>. Without a stream no track is touched, but the flag
  \<^verbatim>\<open>isMicEnabled\<close> is still inverted and the microphone button redrawn.
\<close>

theorem C10_mic_toggle_in_place:
  "stream (toggleMicrophone s) = stream s \<and>
   pendingGetUserMedia (toggleMicrophone s) = pendingGetUserMedia s \<and>
   length (streams (toggleMicrophone s)) = length (streams s) \<and>
   isMicEnabled (toggleMicrophone s) = (\<not> isMicEnabled s) \<and>
   (\<forall>h < length (streams s).
      map kind (streams (toggleMicrophone s) ! h) = map kind (streams s ! h) \<and>
      map readyState (streams (toggleMicrophone s) ! h) = map readyState (streams s ! h) \<and>
      filter (\<lambda>t. kind t = Video) (streams (toggleMicrophone s) ! h) =
        filter (\<lambda>t. kind t = Video) (streams s ! h) \<and>
      (if stream s = Some h
       then map enabled (filter (\<lambda>t. kind t = Audio) (streams (toggleMicrophone s) ! h)) =
            map (\<lambda>t. \<not> isMicEnabled s) (filter (\<lambda>t. kind t = Audio) (streams s ! h))
       else streams (toggleMicrophone s) ! h = streams s ! h)) \<and>
   (stream s = None \<longrightarrow>
      toggleMicrophone s = updateMicrophoneUI (s\<lparr>isMicEnabled := \<not> isMicEnabled s\<rparr>))"
proof -
  have k: "kind (set_audio b t) = kind t" for b t
    by (simp add: set_audio_def)
  have r: "readyState (set_audio b t) = readyState t" for b t
    by (simp add: set_audio_def)
  have v: "filter (\<lambda>t. kind t = Video) (map (set_audio b) ts) =
           filter (\<lambda>t. kind t = Video) ts" for b ts
    by (induction ts) (simp_all add: set_audio_def)
  have a: "map enabled (filter (\<lambda>t. kind t = Audio) (map (set_audio b) ts)) =
           map (\<lambda>t. b) (filter (\<lambda>t. kind t = Audio) ts)" for b ts
    by (induction ts) (simp_all add: set_audio_def)
  show ?thesis
    by (cases "stream s")
       (auto simp: toggleMicrophone_def updateMicrophoneUI_def Let_def nth_map_at k r v a)
qed

theorem C10_witness:
  "toggleMicrophone (init page0 True) =
     updateMicrophoneUI ((init page0 True)\<lparr>isMicEnabled := False\<rparr>) \<and>
   streams (toggleMicrophone recording1) =
     [[\<lparr>kind = Audio, enabled = False, readyState = Live\<rparr>,
       \<lparr>kind = Video, enabled = True, readyState = Live\<rparr>]] \<and>
   stream (toggleMicrophone recording1) = stream recording1"
proof -
  have n: "stream (init page0 True) = None" "isMicEnabled (init page0 True)"
    by (simp_all add: init_def)
  have e: "streams (toggleMicrophone recording1) =
     [[\<lparr>kind = Audio, enabled = False, readyState = Live\<rparr>,
       \<lparr>kind = Video, enabled = True, readyState = Live\<rparr>]]" by code_simp
  from C10_mic_toggle_in_place [of "init page0 True"] C10_mic_toggle_in_place [of recording1] n e
  show ?thesis by simp
qed

text \<open>
  Without a stream the call is not a no-op: it changes \<^verbatim>\<open>isMicEnabled\<close>.
\<close>

theorem C10_counterexample:
  "stream (init page0 True) = None \<and> toggleMicrophone (init page0 True) \<noteq> init page0 True"
proof -
  have "isMicEnabled (toggleMicrophone (init page0 True)) \<noteq> isMicEnabled (init page0 True)"
    by (simp add: toggleMicrophone_def updateMicrophoneUI_def init_def Let_def)
  then show ?thesis by (auto simp: init_def)
qed

end
